theory Spec2Isabelle
  imports Complex_Main "HOL-Library.Sublist" "HOL-Library.Multiset"
begin

section \<open>Python text primitives\<close>

text \<open>
  A Python \<^verbatim>\<open>str\<close> is modelled as a HOL \<^typ>\<open>string\<close>; one \<^typ>\<open>char\<close> stands for one
  code point in the range 0..255, and \<^verbatim>\<open>len\<close> is \<^const>\<open>length\<close>. The character classes
  below are Python's (\<^verbatim>\<open>str.isspace\<close>, \<^verbatim>\<open>str.lower\<close>, the regular expression classes
  \<^verbatim>\<open>\s\<close> and \<^verbatim>\<open>\w\<close>) on that range.
\<close>

definition code :: "char \<Rightarrow> nat" where
  "code c = of_char c"

definition is_space :: "char \<Rightarrow> bool" where
  "is_space c = (code c \<in> {9, 10, 11, 12, 13, 28, 29, 30, 31, 32, 133, 160})"

text \<open>
  Upper-case code points are 65..90 and 192..222 without 215; the lower-case partner is
  32 higher, that is, the same character with bit 5 set.
\<close>

definition lower_char :: "char \<Rightarrow> char" where
  "lower_char c =
     (let n = code c in
      if (65 \<le> n \<and> n \<le> 90) \<or> (192 \<le> n \<and> n \<le> 222 \<and> n \<noteq> 215)
      then (case c of Char b0 b1 b2 b3 b4 b5 b6 b7 \<Rightarrow> Char b0 b1 b2 b3 b4 True b6 b7)
      else c)"

definition lower :: "string \<Rightarrow> string" where
  "lower s = map lower_char s"

text \<open>\<^verbatim>\<open>s.strip()\<close>: leading and trailing whitespace removed.\<close>

definition strip :: "string \<Rightarrow> string" where
  "strip s = rev (dropWhile is_space (rev (dropWhile is_space s)))"

text \<open>\<^verbatim>\<open>s.split()\<close>: the maximal runs of non-whitespace characters, in order.\<close>

fun split_acc :: "string \<Rightarrow> string \<Rightarrow> string list" where
  "split_acc w [] = (if w = [] then [] else [w])"
| "split_acc w (c # cs) =
     (if is_space c then (if w = [] then split_acc [] cs else w # split_acc [] cs)
      else split_acc (w @ [c]) cs)"

definition split :: "string \<Rightarrow> string list" where
  "split s = split_acc [] s"

text \<open>\<^verbatim>\<open>sep.join(parts)\<close>.\<close>

fun join :: "string \<Rightarrow> string list \<Rightarrow> string" where
  "join sep [] = []"
| "join sep [w] = w"
| "join sep (w # v # ws) = w @ sep @ join sep (v # ws)"

text \<open>\<^verbatim>\<open>' '.join(s.split())\<close>, the whitespace normalization of the extractor.\<close>

definition normalize :: "string \<Rightarrow> string" where
  "normalize s = join '' '' (split s)"

text \<open>\<^verbatim>\<open>needle in hay\<close> on strings: \<open>needle\<close> occurs as a contiguous substring.\<close>

fun contains :: "string \<Rightarrow> string \<Rightarrow> bool" where
  "contains needle [] = (needle = [])"
| "contains needle (c # cs) = (prefix needle (c # cs) \<or> contains needle cs)"

text \<open>\<^verbatim>\<open>s.replace(c, "")\<close> for a one-character \<open>c\<close>.\<close>

definition remove_char :: "char \<Rightarrow> string \<Rightarrow> string" where
  "remove_char c s = filter (\<lambda>x. x \<noteq> c) s"

text \<open>\<^verbatim>\<open>str(n)\<close> for a natural number.\<close>

definition digit_char :: "nat \<Rightarrow> char" where
  "digit_char d = ''0123456789'' ! d"

function str_nat :: "nat \<Rightarrow> string" where
  "str_nat n = (if n < 10 then [digit_char n] else str_nat (n div 10) @ [digit_char (n mod 10)])"
  by pat_completeness auto
termination
  by (relation "measure id") auto

definition newline :: string where
  "newline = [CHR 0x0A]"

section \<open>Regular expressions\<close>

text \<open>
  The patterns of the source are sequences of literals, greedy repetitions of a character
  class and \<^verbatim>\<open>\b\<close>. \<open>Rep cls lo hi\<close> is \<^verbatim>\<open>[cls]{lo,hi}\<close> (\<open>hi = None\<close>: unbounded).
\<close>

datatype re_item = Lit string | Rep "char \<Rightarrow> bool" nat "nat option" | WordB

definition is_digit :: "char \<Rightarrow> bool" where
  "is_digit c = (48 \<le> code c \<and> code c \<le> 57)"

definition is_AZ :: "char \<Rightarrow> bool" where
  "is_AZ c = (65 \<le> code c \<and> code c \<le> 90)"

definition is_az :: "char \<Rightarrow> bool" where
  "is_az c = (97 \<le> code c \<and> code c \<le> 122)"

text \<open>\<^verbatim>\<open>\w\<close>: alphanumeric (\<^verbatim>\<open>str.isalnum\<close>) or underscore.\<close>

definition is_word :: "char \<Rightarrow> bool" where
  "is_word c =
     (let n = code c in
      is_digit c \<or> is_AZ c \<or> is_az c \<or> n = 95
      \<or> n \<in> {170, 178, 179, 181, 185, 186, 188, 189, 190}
      \<or> (192 \<le> n \<and> n \<noteq> 215 \<and> n \<noteq> 247))"

text \<open>
  The upper-case partner, for class matching under \<^verbatim>\<open>re.IGNORECASE\<close>. Code points 181
  and 255 have theirs outside the range of \<^typ>\<open>char\<close>; they are left alone, which gives
  the same membership in every class of this file.
\<close>

definition upper_char :: "char \<Rightarrow> char" where
  "upper_char c =
     (let n = code c in
      if (97 \<le> n \<and> n \<le> 122) \<or> (224 \<le> n \<and> n \<le> 254 \<and> n \<noteq> 247)
      then (case c of Char b0 b1 b2 b3 b4 b5 b6 b7 \<Rightarrow> Char b0 b1 b2 b3 b4 False b6 b7)
      else c)"

definition cls_match :: "bool \<Rightarrow> (char \<Rightarrow> bool) \<Rightarrow> char \<Rightarrow> bool" where
  "cls_match ic cls c =
     (if ic then (if cls (lower_char c) then True else cls (upper_char (lower_char c)))
      else cls c)"

text \<open>A literal character, and a literal at the start of \<open>s\<close>.\<close>

definition chr_match :: "bool \<Rightarrow> char \<Rightarrow> char \<Rightarrow> bool" where
  "chr_match ic a c = (if ic then lower_char a = lower_char c else a = c)"

fun lit_match :: "bool \<Rightarrow> string \<Rightarrow> string \<Rightarrow> bool" where
  "lit_match ic [] s = True"
| "lit_match ic (a # l) [] = False"
| "lit_match ic (a # l) (c # s) = (if chr_match ic a c then lit_match ic l s else False)"

text \<open>The character before offset \<open>k\<close> of \<open>s\<close>, where \<open>prev\<close> is the one before \<open>s\<close>.\<close>

definition prev_after :: "char option \<Rightarrow> string \<Rightarrow> nat \<Rightarrow> char option" where
  "prev_after prev s k = (if k = 0 then prev else Some (s ! (k - 1)))"

definition at_boundary :: "char option \<Rightarrow> string \<Rightarrow> bool" where
  "at_boundary prev s =
     ((case prev of None \<Rightarrow> False | Some c \<Rightarrow> is_word c)
        \<noteq> (case s of [] \<Rightarrow> False | c # _ \<Rightarrow> is_word c))"

fun first_some :: "'a option list \<Rightarrow> 'a option" where
  "first_some [] = None"
| "first_some (Some x # xs) = Some x"
| "first_some (None # xs) = first_some xs"

text \<open>
  The backtracking match of pattern \<open>p\<close> at the start of \<open>s\<close>: the length of the first
  match in the engine's order (a repetition tries its longest run first and gives
  characters back one at a time), or \<^const>\<open>None\<close>.
\<close>

fun re_match :: "bool \<Rightarrow> re_item list \<Rightarrow> char option \<Rightarrow> string \<Rightarrow> nat option" where
  "re_match ic [] prev s = Some 0"
| "re_match ic (Lit l # r) prev s =
     (if lit_match ic l s
      then map_option (\<lambda>j. length l + j)
             (re_match ic r (prev_after prev s (length l)) (drop (length l) s))
      else None)"
| "re_match ic (WordB # r) prev s = (if at_boundary prev s then re_match ic r prev s else None)"
| "re_match ic (Rep cls lo hi # r) prev s =
     (let n = length (takeWhile (cls_match ic cls) s);
          m = (case hi of None \<Rightarrow> n | Some h \<Rightarrow> min h n)
      in first_some
           (map (\<lambda>k. map_option (\<lambda>j. k + j) (re_match ic r (prev_after prev s k) (drop k s)))
                (rev [lo..<Suc m])))"

text \<open>\<^verbatim>\<open>re.search(p, s)\<close> as a truth value: a match starts at some offset.\<close>

fun re_search_from :: "bool \<Rightarrow> re_item list \<Rightarrow> char option \<Rightarrow> string \<Rightarrow> bool" where
  "re_search_from ic p prev [] = (re_match ic p prev [] \<noteq> None)"
| "re_search_from ic p prev (c # cs) =
     (if re_match ic p prev (c # cs) \<noteq> None then True else re_search_from ic p (Some c) cs)"

definition re_search :: "bool \<Rightarrow> re_item list \<Rightarrow> string \<Rightarrow> bool" where
  "re_search ic p s = re_search_from ic p None s"

text \<open>
  \<^verbatim>\<open>re.sub(p, repl, s)\<close> without flags: scanning from the left, the first match at the
  leftmost offset is replaced and the scan goes on after it. \<open>skip\<close> counts the characters
  of the current match still to be passed over.
\<close>

fun re_sub_from :: "re_item list \<Rightarrow> string \<Rightarrow> char option \<Rightarrow> nat \<Rightarrow> string \<Rightarrow> string" where
  "re_sub_from p repl prev skip [] =
     (if skip = 0 \<and> re_match False p prev [] \<noteq> None then repl else [])"
| "re_sub_from p repl prev (Suc k) (c # cs) = re_sub_from p repl (Some c) k cs"
| "re_sub_from p repl prev 0 (c # cs) =
     (case re_match False p prev (c # cs) of
        None \<Rightarrow> c # re_sub_from p repl (Some c) 0 cs
      | Some 0 \<Rightarrow> repl @ c # re_sub_from p repl (Some c) 0 cs
      | Some (Suc n) \<Rightarrow> repl @ re_sub_from p repl (Some c) n cs)"

definition re_sub :: "re_item list \<Rightarrow> string \<Rightarrow> string \<Rightarrow> string" where
  "re_sub p repl s = re_sub_from p repl None 0 s"

section \<open>Data model\<close>

text \<open>
  A chunk of the raw memory, a retrieved item \<^verbatim>\<open>{"chunk": ..., "score": ...}\<close>, an evidence
  item, the extractor's result, a citation and the verdict, each with the keys the source
  reads or writes. The score type is a parameter: the source computes it in floating point.
\<close>

type_synonym timestamp = string

record chunk =
  chunk_id :: string
  chunk_file :: string
  chunk_text :: string
  chunk_timestamp :: "timestamp option"

record 's retrieved =
  r_chunk :: chunk
  r_score :: 's

record evidence_item =
  ev_quote :: string
  ev_chunk_id :: string
  ev_file :: string
  ev_timestamp :: "timestamp option"

record evidence =
  evidence_items :: "evidence_item list"
  has_evidence :: bool
  raw_extraction :: "string option"

record citation =
  cit_text :: string
  cit_source :: string
  cit_chunk_id :: string
  cit_timestamp :: "timestamp option"

datatype confidence = Conf_none | Conf_medium | Conf_high

record verdict =
  answer :: string
  confidence :: confidence
  reasoning :: string
  citations :: "citation list"

text \<open>The exceptions of the source that the model follows.\<close>

datatype py_exception =
  JSONDecodeError | KeyError | TypeError | AttributeError | IndexError | RecursionError | ValueError

section \<open>Layer 4: retrieval\<close>

text \<open>
  \<^verbatim>\<open>Retrieval.retrieve\<close> from the sort onwards. Everything before it (embedding the query,
  routing through the semantic memory, the date range, the identity chunks, the cosine
  scores and boosts) yields the list \<^verbatim>\<open>scores\<close> of pairs of a score and a chunk, or the
  early return when the query embedding is empty; that outcome is the argument \<open>scored\<close>.
  The score is any linearly ordered type.

  \<^verbatim>\<open>scores.sort(key=lambda x: x[0], reverse=True)\<close> is a stable sort of the reversed list,
  reversed again.
\<close>

definition sort_scores :: "('s::linorder \<times> chunk) list \<Rightarrow> ('s \<times> chunk) list" where
  "sort_scores scores = rev (sort_key fst (rev scores))"

fun select_loop ::
  "int \<Rightarrow> int \<Rightarrow> ('s \<times> chunk) list \<Rightarrow> 's retrieved list \<Rightarrow> int \<Rightarrow> 's retrieved list \<times> int" where
  "select_loop top_k max_context_chars [] selected total_chars = (selected, total_chars)"
| "select_loop top_k max_context_chars ((score, chunk) # rest) selected total_chars =
     (if int (length selected) \<ge> top_k then (selected, total_chars)
      else if total_chars + int (length (chunk_text chunk)) > max_context_chars
      then (selected, total_chars)
      else select_loop top_k max_context_chars rest
             (selected @ [\<lparr>r_chunk = chunk, r_score = score\<rparr>])
             (total_chars + int (length (chunk_text chunk))))"

text \<open>The metadata without \<^verbatim>\<open>relevant_weeks\<close>.\<close>

datatype metadata =
    Md_error string
  | Md_stats (total_candidates: nat) (selected_count: nat) (total_chars: int)

record 's retrieval_result =
  ret_chunks :: "'s retrieved list"
  ret_metadata :: metadata

definition retrieve ::
  "int \<Rightarrow> ('s::linorder \<times> chunk) list option \<Rightarrow> int \<Rightarrow> 's retrieval_result" where
  "retrieve top_k scored max_context_chars =
     (case scored of
        None \<Rightarrow> \<lparr>ret_chunks = [], ret_metadata = Md_error ''embedding failed''\<rparr>
      | Some scores \<Rightarrow>
          (let (selected, total) = select_loop top_k max_context_chars (sort_scores scores) [] 0
           in \<lparr>ret_chunks = selected,
               ret_metadata = Md_stats (length scores) (length selected) total\<rparr>))"

section \<open>JSON values\<close>

text \<open>
  What \<^verbatim>\<open>json.loads\<close> returns. A float is a rational or one of the three special values
  the decoder accepts; an object is an association list read with \<^const>\<open>map_of\<close>.
\<close>

datatype py_float = Finite rat | PosInf | NegInf | NaN

datatype json =
    JNull
  | JBool bool
  | JInt int
  | JFloat py_float
  | JStr string
  | JArr "json list"
  | JObj "(string \<times> json) list"

text \<open>
  \<^verbatim>\<open>json.loads\<close> is the standard library's decoder, a parameter \<open>decoder\<close> of the model.
  It returns the decoded value or raises: \<^verbatim>\<open>JSONDecodeError\<close> on text that is not JSON,
  and also \<^verbatim>\<open>RecursionError\<close> (nesting too deep) or a plain \<^verbatim>\<open>ValueError\<close> (an integer
  literal beyond the digit limit), which are no \<^verbatim>\<open>JSONDecodeError\<close>. Its value on the one
  literal the source feeds it is fixed here.
\<close>

definition empty_extraction :: string where
  \<open>empty_extraction = ''{"evidence":[]}''\<close>

definition json_loads ::
  "(string \<Rightarrow> py_exception + json) \<Rightarrow> string \<Rightarrow> py_exception + json" where
  "json_loads decoder s =
     (if s = empty_extraction then Inr (JObj [(''evidence'', JArr [])]) else decoder s)"

section \<open>Layer 5: evidence extraction\<close>

text \<open>
  \<^verbatim>\<open>xs[i]\<close> for an integer: a negative \<open>i\<close> counts from the end.

  The three uses of \<^verbatim>\<open>chunk_idx\<close> after the \<^verbatim>\<open>is None\<close> test: \<^verbatim>\<open>chunk_idx < 0\<close>,
  \<^verbatim>\<open>chunk_idx >= len(retrieved_chunks)\<close> and \<^verbatim>\<open>retrieved_chunks[chunk_idx]\<close>. A JSON
  boolean is a Python \<^verbatim>\<open>bool\<close>, which compares and indexes as 0 or 1; a float compares but
  does not index; a string, list or object raises \<^verbatim>\<open>TypeError\<close> on the comparison.
\<close>

fun idx_lt_zero :: "json \<Rightarrow> py_exception + bool" where
  "idx_lt_zero (JBool b) = Inr False"
| "idx_lt_zero (JInt i) = Inr (i < 0)"
| "idx_lt_zero (JFloat (Finite q)) = Inr (q < 0)"
| "idx_lt_zero (JFloat NegInf) = Inr True"
| "idx_lt_zero (JFloat PosInf) = Inr False"
| "idx_lt_zero (JFloat NaN) = Inr False"
| "idx_lt_zero _ = Inl TypeError"

fun idx_ge_len :: "json \<Rightarrow> nat \<Rightarrow> py_exception + bool" where
  "idx_ge_len (JBool b) n = Inr ((if b then 1 else 0) \<ge> n)"
| "idx_ge_len (JInt i) n = Inr (i \<ge> int n)"
| "idx_ge_len (JFloat (Finite q)) n = Inr (q \<ge> of_nat n)"
| "idx_ge_len (JFloat PosInf) n = Inr True"
| "idx_ge_len (JFloat NegInf) n = Inr False"
| "idx_ge_len (JFloat NaN) n = Inr False"
| "idx_ge_len _ n = Inl TypeError"

definition int_index :: "'a list \<Rightarrow> int \<Rightarrow> py_exception + 'a" where
  "int_index xs i =
     (if 0 \<le> i \<and> i < int (length xs) then Inr (xs ! nat i)
      else if i < 0 \<and> - int (length xs) \<le> i then Inr (xs ! nat (int (length xs) + i))
      else Inl IndexError)"

fun list_index :: "'a list \<Rightarrow> json \<Rightarrow> py_exception + 'a" where
  "list_index xs (JInt i) = int_index xs i"
| "list_index xs (JBool b) = int_index xs (if b then 1 else 0)"
| "list_index xs _ = Inl TypeError"

definition min_quote_length :: "string \<Rightarrow> nat" where
  "min_quote_length answer_mode = (if answer_mode = ''SUMMARY_MODE'' then 5 else 8)"

text \<open>
  One pass of the loop body over \<^verbatim>\<open>item\<close>: an exception, \<^verbatim>\<open>continue\<close>
  (\<^term>\<open>Inr None\<close>) or the evidence item that is appended. \<^verbatim>\<open>item.get\<close> needs a dict and
  \<^verbatim>\<open>.strip()\<close> a string; otherwise \<^verbatim>\<open>AttributeError\<close>.
\<close>

definition process_item ::
  "'s retrieved list \<Rightarrow> nat \<Rightarrow> json \<Rightarrow> py_exception + evidence_item option" where
  "process_item retrieved_chunks min_len item =
     (case item of
        JObj kvs \<Rightarrow>
          (let chunk_idx = (case map_of kvs ''chunk_index'' of None \<Rightarrow> JNull | Some v \<Rightarrow> v) in
           case (case map_of kvs ''quote'' of None \<Rightarrow> JStr [] | Some v \<Rightarrow> v) of
             JStr raw \<Rightarrow>
               (let quote = strip raw in
                if chunk_idx = JNull then Inr None
                else case idx_lt_zero chunk_idx of
                  Inl e \<Rightarrow> Inl e
                | Inr True \<Rightarrow> Inr None
                | Inr False \<Rightarrow>
                   (case idx_ge_len chunk_idx (length retrieved_chunks) of
                      Inl e \<Rightarrow> Inl e
                    | Inr True \<Rightarrow> Inr None
                    | Inr False \<Rightarrow>
                       if length quote < min_len then Inr None
                       else case list_index retrieved_chunks chunk_idx of
                         Inl e \<Rightarrow> Inl e
                       | Inr it \<Rightarrow>
                          (let chunk = r_chunk it in
                           if \<not> contains (normalize quote) (normalize (chunk_text chunk))
                           then Inr None
                           else Inr (Some \<lparr>ev_quote = quote, ev_chunk_id = chunk_id chunk,
                                           ev_file = chunk_file chunk,
                                           ev_timestamp = chunk_timestamp chunk\<rparr>))))
           | _ \<Rightarrow> Inl AttributeError)
      | _ \<Rightarrow> Inl AttributeError)"

text \<open>
  The \<^verbatim>\<open>for\<close> loop: the items appended so far, and the exception that ended the loop
  if one did.
\<close>

fun extract_loop ::
  "'s retrieved list \<Rightarrow> nat \<Rightarrow> json list \<Rightarrow> evidence_item list
     \<Rightarrow> evidence_item list \<times> py_exception option" where
  "extract_loop retrieved_chunks min_len [] acc = (acc, None)"
| "extract_loop retrieved_chunks min_len (item # items) acc =
     (case process_item retrieved_chunks min_len item of
        Inl e \<Rightarrow> (acc, Some e)
      | Inr None \<Rightarrow> extract_loop retrieved_chunks min_len items acc
      | Inr (Some ev) \<Rightarrow> extract_loop retrieved_chunks min_len items (acc @ [ev]))"

text \<open>
  What \<^verbatim>\<open>for item in v\<close> iterates over: the elements of a list, the one-character
  strings of a string, the keys of a dict; anything else is not iterable.
\<close>

fun iterate :: "json \<Rightarrow> py_exception + json list" where
  "iterate (JArr xs) = Inr xs"
| "iterate (JStr s) = Inr (map (\<lambda>c. JStr [c]) s)"
| "iterate (JObj kvs) = Inr (map JStr (remdups (map fst kvs)))"
| "iterate _ = Inl TypeError"

text \<open>The body of the \<^verbatim>\<open>try\<close> block.\<close>

definition extract_try ::
  "(string \<Rightarrow> py_exception + json) \<Rightarrow> string \<Rightarrow> 's retrieved list \<Rightarrow> nat
     \<Rightarrow> evidence_item list \<times> py_exception option" where
  "extract_try decoder extraction_text retrieved_chunks min_len =
     (case json_loads decoder (strip extraction_text) of
        Inl e \<Rightarrow> ([], Some e)
      | Inr (JObj kvs) \<Rightarrow>
          (case iterate (case map_of kvs ''evidence'' of None \<Rightarrow> JArr [] | Some v \<Rightarrow> v) of
             Inl e \<Rightarrow> ([], Some e)
           | Inr items \<Rightarrow> extract_loop retrieved_chunks min_len items [])
      | Inr _ \<Rightarrow> ([], Some AttributeError))"

text \<open>
  \<^verbatim>\<open>EvidenceExtraction.extract\<close> (\<open>extract\<close> is a reserved word here, hence the longer
  name). \<open>llm_output\<close> is the \<^verbatim>\<open>output_text\<close> of the generation
  call on the extraction prompt, \<^const>\<open>None\<close> when the call raises or the attribute is
  missing. The handler catches \<^verbatim>\<open>JSONDecodeError\<close>, \<^verbatim>\<open>KeyError\<close> and
  \<^verbatim>\<open>TypeError\<close>; any other exception leaves the function, also one raised by the
  decoder.
\<close>

definition extract_evidence ::
  "(string \<Rightarrow> py_exception + json) \<Rightarrow> string option \<Rightarrow> string \<Rightarrow> 's retrieved list
     \<Rightarrow> string \<Rightarrow> py_exception + evidence" where
  "extract_evidence decoder llm_output question retrieved_chunks answer_mode =
     (if retrieved_chunks = []
      then Inr \<lparr>evidence_items = [], has_evidence = False, raw_extraction = None\<rparr>
      else
        let extraction_text = (case llm_output of None \<Rightarrow> empty_extraction | Some t \<Rightarrow> t);
            min_len = min_quote_length answer_mode;
            (items, exc) = extract_try decoder extraction_text retrieved_chunks min_len
        in if exc = None \<or> exc = Some JSONDecodeError \<or> exc = Some KeyError \<or> exc = Some TypeError
           then Inr \<lparr>evidence_items = items, has_evidence = (length items > 0),
                     raw_extraction = Some extraction_text\<rparr>
           else Inl (the exc))"

section \<open>Layer 6: verifier gate\<close>

subsection \<open>Sensitive patterns and keywords\<close>

text \<open>
  The character classes of the source's patterns, as written there:
  \<^verbatim>\<open>[A-Za-z0-9]\<close>, \<^verbatim>\<open>[0-9A-Z]\<close>, \<^verbatim>\<open>[:\s]\<close>, \<^verbatim>\<open>[^\s]\<close>, \<^verbatim>\<open>[_-]\<close>, and for the email pattern
  \<^verbatim>\<open>[A-Za-z0-9._%+-]\<close>, \<^verbatim>\<open>[A-Za-z0-9.-]\<close>, \<^verbatim>\<open>[A-Z|a-z]\<close>.
\<close>

definition cls_alnum :: "char \<Rightarrow> bool" where
  "cls_alnum c = (is_AZ c \<or> is_az c \<or> is_digit c)"

definition cls_digit_upper :: "char \<Rightarrow> bool" where
  "cls_digit_upper c = (is_digit c \<or> is_AZ c)"

definition cls_colon_space :: "char \<Rightarrow> bool" where
  "cls_colon_space c = (c = CHR '':'' \<or> is_space c)"

definition cls_non_space :: "char \<Rightarrow> bool" where
  "cls_non_space c = (\<not> is_space c)"

definition cls_underscore_dash :: "char \<Rightarrow> bool" where
  "cls_underscore_dash c = (c = CHR ''_'' \<or> c = CHR ''-'')"

definition cls_email_local :: "char \<Rightarrow> bool" where
  "cls_email_local c = (is_AZ c \<or> is_az c \<or> is_digit c \<or> c \<in> set ''._%+-'')"

definition cls_email_domain :: "char \<Rightarrow> bool" where
  "cls_email_domain c = (is_AZ c \<or> is_az c \<or> is_digit c \<or> c \<in> set ''.-'')"

definition cls_email_tld :: "char \<Rightarrow> bool" where
  "cls_email_tld c = (is_AZ c \<or> c = CHR ''|'' \<or> is_az c)"

text \<open>
  \<^verbatim>\<open>self.sensitive_patterns\<close>, in the source's order:
  \<^verbatim>\<open>sk-[A-Za-z0-9]{20,}\<close>, \<^verbatim>\<open>AKIA[0-9A-Z]{16}\<close>, \<^verbatim>\<open>password[:\s]*[^\s]+\<close>,
  \<^verbatim>\<open>api[_-]?key[:\s]*[^\s]+\<close>, \<^verbatim>\<open>secret[:\s]*[^\s]+\<close>, \<^verbatim>\<open>token[:\s]*[^\s]+\<close>.
\<close>

definition sensitive_patterns :: "re_item list list" where
  "sensitive_patterns =
     [[Lit ''sk-'', Rep cls_alnum 20 None],
      [Lit ''AKIA'', Rep cls_digit_upper 16 (Some 16)],
      [Lit ''password'', Rep cls_colon_space 0 None, Rep cls_non_space 1 None],
      [Lit ''api'', Rep cls_underscore_dash 0 (Some 1), Lit ''key'',
         Rep cls_colon_space 0 None, Rep cls_non_space 1 None],
      [Lit ''secret'', Rep cls_colon_space 0 None, Rep cls_non_space 1 None],
      [Lit ''token'', Rep cls_colon_space 0 None, Rep cls_non_space 1 None]]"

definition sensitive_keywords :: "string list" where
  "sensitive_keywords =
     [''password'', ''passwd'', ''pwd'',
      ''api_key'', ''api key'', ''apikey'',
      ''secret'', ''token'',
      ''credential'', ''credentials'', ''creds'', ''cred'',
      ''aws access'', ''aws secret'', ''aws key'',
      ''account id'', ''account number'',
      ''private key'', ''ssh key'']"

text \<open>\<^verbatim>\<open>\b[A-Za-z0-9._%+-]+@[A-Za-z0-9.-]+\.[A-Z|a-z]{2,}\b\<close>\<close>

definition email_pattern :: "re_item list" where
  "email_pattern =
     [WordB, Rep cls_email_local 1 None, Lit ''@'', Rep cls_email_domain 1 None, Lit ''.'',
      Rep cls_email_tld 2 None, WordB]"

text \<open>
  \<^verbatim>\<open>VerifierGate._contains_sensitive_info\<close>; \<open>source_file\<close> defaults to the empty string.
  \<open>any_keyword_in\<close> is the final \<^verbatim>\<open>any(...)\<close> over \<^verbatim>\<open>text_lower\<close>.
\<close>

definition any_keyword_in :: "string \<Rightarrow> bool" where
  "any_keyword_in text_lower = list_ex (\<lambda>keyword. contains keyword text_lower) sensitive_keywords"

definition contains_sensitive_info :: "string \<Rightarrow> string \<Rightarrow> bool" where
  "contains_sensitive_info text source_file =
     (if text = [] then False
      else if contains ''identity.md'' source_file then False
      else if list_ex (\<lambda>pattern. re_search True pattern text) sensitive_patterns then True
      else any_keyword_in (lower text))"

subsection \<open>Entailment\<close>

text \<open>
  \<^verbatim>\<open>VerifierGate._entailment_state\<close>. After the guard on an empty quote list the source
  builds a prompt, calls the model and reads \<^verbatim>\<open>"state"\<close> out of the response; every path
  of that part returns \<^verbatim>\<open>"yes"\<close>, \<^verbatim>\<open>"no"\<close> or \<^verbatim>\<open>"unknown"\<close> (\<^verbatim>\<open>"unknown"\<close> when the call or
  the parsing fails). \<open>llm_state\<close> is that value.
\<close>

datatype entailment = Yes | No | Unknown

definition entailment_state :: "entailment \<Rightarrow> string \<Rightarrow> string list \<Rightarrow> entailment" where
  "entailment_state llm_state question evidence_quotes =
     (if evidence_quotes = [] then No else llm_state)"

subsection \<open>Fixed responses\<close>

definition refusal_text :: string where
  "refusal_text = ''I do not see this in your data.''"

definition refusal :: "string \<Rightarrow> verdict" where
  "refusal why = \<lparr>answer = refusal_text, confidence = Conf_none, reasoning = why, citations = []\<rparr>"

definition question_blocked :: verdict where
  "question_blocked =
     \<lparr>answer = ''I cannot share sensitive information like credentials, passwords, or API keys.'',
      confidence = Conf_none,
      reasoning = ''Question blocked due to requesting sensitive information.'',
      citations = []\<rparr>"

definition answer_blocked :: verdict where
  "answer_blocked =
     \<lparr>answer = ''I cannot share that because it contains sensitive information.'',
      confidence = Conf_none,
      reasoning = ''Answer blocked due to sensitive information detection.'',
      citations = []\<rparr>"

subsection \<open>Quote-only fallback\<close>

text \<open>The loop over the evidence that fills \<^verbatim>\<open>seen_chunks\<close> and \<^verbatim>\<open>quote_lines\<close>.\<close>

fun quote_loop ::
  "evidence_item list \<Rightarrow> string set \<Rightarrow> string list \<Rightarrow> string set \<times> string list" where
  "quote_loop [] seen_chunks quote_lines = (seen_chunks, quote_lines)"
| "quote_loop (ev # evs) seen_chunks quote_lines =
     (if ev_chunk_id ev \<notin> seen_chunks \<and> length quote_lines < 3
      then quote_loop evs (insert (ev_chunk_id ev) seen_chunks) (quote_lines @ [''- '' @ ev_quote ev])
      else quote_loop evs seen_chunks quote_lines)"

definition quote_citation :: "evidence_item \<Rightarrow> citation" where
  "quote_citation ev =
     \<lparr>cit_text = ev_quote ev, cit_source = ev_file ev, cit_chunk_id = ev_chunk_id ev,
      cit_timestamp = ev_timestamp ev\<rparr>"

definition quote_only_citations :: "evidence_item list \<Rightarrow> string set \<Rightarrow> citation list" where
  "quote_only_citations evs seen_chunks =
     map quote_citation (filter (\<lambda>ev. ev_chunk_id ev \<in> seen_chunks) evs)"

subsection \<open>Citation assembly\<close>

definition is_valid :: "string \<Rightarrow> bool" where
  "is_valid quote_text =
     (quote_text \<noteq> []
      \<and> length quote_text > 5
      \<and> quote_text \<notin> set [''__'', ''___'', ''...'', ''----'', ''N/A'', ''n/a'']
      \<and> \<not> strip (remove_char CHR ''-'' (remove_char CHR ''.'' (remove_char CHR ''_'' quote_text))) = [])"

definition redact_emails :: "string \<Rightarrow> string" where
  "redact_emails quote_text = re_sub email_pattern ''[redacted]'' quote_text"

text \<open>One pass of the citation loop: the citation appended for \<open>ev\<close>, if any.\<close>

definition cite :: "evidence_item \<Rightarrow> citation option" where
  "cite ev =
     (let quote_text = strip (ev_quote ev);
          source_file = ev_file ev
      in if is_valid quote_text
         then (let quote_text' = (if \<not> contains ''identity.md'' source_file
                                  then redact_emails quote_text else quote_text)
               in if \<not> contains_sensitive_info quote_text' source_file
                  then Some \<lparr>cit_text = quote_text', cit_source = source_file,
                             cit_chunk_id = ev_chunk_id ev, cit_timestamp = ev_timestamp ev\<rparr>
                  else None)
         else None)"

fun build_citations :: "evidence_item list \<Rightarrow> citation list" where
  "build_citations [] = []"
| "build_citations (ev # evs) =
     (case cite ev of None \<Rightarrow> build_citations evs | Some c \<Rightarrow> c # build_citations evs)"

subsection \<open>Generation, scan and confidence\<close>

text \<open>
  The part of \<^verbatim>\<open>generate_answer\<close> after the mode branch. \<open>llm_answer\<close> is the
  \<^verbatim>\<open>output_text\<close> of the generation call, \<^const>\<open>None\<close> when the call raises or the attribute
  is missing; \<open>boost\<close> is \<^verbatim>\<open>summary_confidence_boost\<close>.
\<close>

definition generated_text :: "string option \<Rightarrow> string" where
  "generated_text llm_answer =
     (let answer_text = strip (case llm_answer of None \<Rightarrow> refusal_text | Some t \<Rightarrow> t)
      in if answer_text = [] then refusal_text else answer_text)"

definition is_from_identity :: "evidence_item list \<Rightarrow> bool" where
  "is_from_identity evs = list_ex (\<lambda>src. contains ''identity.md'' src) (map ev_file evs)"

definition is_refusal :: "string \<Rightarrow> bool" where
  "is_refusal answer_text = contains ''do not see'' (lower answer_text)"

definition generate_and_cite ::
  "string option \<Rightarrow> evidence_item list \<Rightarrow> confidence option \<Rightarrow> verdict" where
  "generate_and_cite llm_answer evs boost =
     (let answer_text = generated_text llm_answer
      in if \<not> is_from_identity evs \<and> contains_sensitive_info answer_text []
         then answer_blocked
         else
           let cits = build_citations evs;
               conf = (if is_refusal answer_text then Conf_none
                       else case boost of
                              Some b \<Rightarrow> b
                            | None \<Rightarrow> if length cits \<ge> 2 then Conf_high else Conf_medium)
           in \<lparr>answer = answer_text, confidence = conf,
               reasoning = ''Based on '' @ str_nat (length cits)
                             @ '' valid citation(s) from retrieved context.'',
               citations = cits\<rparr>)"

text \<open>
  \<^verbatim>\<open>VerifierGate.generate_answer\<close>. Its argument \<^verbatim>\<open>retrieved_chunks\<close> is never read by the
  source and is left out.
\<close>

definition generate_answer ::
  "entailment \<Rightarrow> string option \<Rightarrow> string \<Rightarrow> evidence \<Rightarrow> string \<Rightarrow> verdict" where
  "generate_answer llm_state llm_answer question evidence answer_mode =
     (if contains_sensitive_info question [] then question_blocked
      else if \<not> has_evidence evidence \<or> length (evidence_items evidence) = 0
      then refusal ''No supporting evidence found in the data.''
      else
        let evs = evidence_items evidence in
        if answer_mode = ''SUMMARY_MODE''
        then (let unique_chunks = set (map ev_chunk_id evs)
              in if card unique_chunks = 0 then refusal ''No evidence found for summary.''
                 else generate_and_cite llm_answer evs
                        (Some (if card unique_chunks \<ge> 2 then Conf_high else Conf_medium)))
        else (let entailment = entailment_state llm_state question (map ev_quote evs)
              in if entailment = No then refusal ''Evidence does not support the question.''
                 else if entailment = Unknown
                 then (let (seen_chunks, quote_lines) = quote_loop evs {} []
                       in if quote_lines \<noteq> []
                          then \<lparr>answer = ''From my data:'' @ newline @ join newline quote_lines,
                                confidence = Conf_medium,
                                reasoning = ''Entailment unclear, returning quote-only answer.'',
                                citations = quote_only_citations evs seen_chunks\<rparr>
                          else refusal ''Cannot verify if evidence supports the question.'')
                 else generate_and_cite llm_answer evs None))"

section \<open>The orchestrator\<close>

text \<open>
  What one request takes from outside the code under study: whether the query parser
  finds a date range, the scored candidates, the JSON decoder, the three model outputs and
  the rewriting done by the style layer.
\<close>

record 's externals =
  x_date_range :: bool
  x_scored :: "('s \<times> chunk) list option"
  x_decoder :: "string \<Rightarrow> py_exception + json"
  x_extraction :: "string option"
  x_state :: entailment
  x_answer :: "string option"
  x_restyle :: "string \<Rightarrow> string"

text \<open>
  \<^verbatim>\<open>StyleLayer.apply_style\<close> returns its argument, with the \<^verbatim>\<open>answer\<close> key rewritten or
  not; no other key is written.
\<close>

definition apply_style :: "(string \<Rightarrow> string) \<Rightarrow> verdict \<Rightarrow> verdict" where
  "apply_style restyle answer_result = answer_result\<lparr>answer := restyle (answer answer_result)\<rparr>"

definition greetings :: "string set" where
  "greetings = {''hi'', ''hello'', ''hey''}"

definition help_intents :: "string set" where
  "help_intents =
     {''help'', ''what can you do'', ''how do you work'', ''examples'', ''example questions''}"

definition greeting_reply :: verdict where
  "greeting_reply =
     \<lparr>answer = ''Hi. You can ask me about my work, decisions, and messages. ''
                @ ''For example: What happened in late December around inference?'',
      confidence = Conf_none,
      reasoning = ''Greeting handled as a UI intent without using memory.'',
      citations = []\<rparr>"

definition help_reply :: verdict where
  "help_reply =
     \<lparr>answer = ''I answer questions about my work using only the data you provided. ''
                @ ''If I cannot find evidence, I will refuse. ''
                @ ''Try asking: What was I working on in Q4 2025?'',
      confidence = Conf_none,
      reasoning = ''Help intent handled as a UI intent without using memory.'',
      citations = []\<rparr>"

definition answer_mode_of :: "bool \<Rightarrow> string \<Rightarrow> string" where
  "answer_mode_of has_date_range question =
     (let question_lower = lower question;
          is_summary_mode =
            (has_date_range
             \<or> prefix ''what happened'' question_lower
             \<or> prefix ''what was i working on'' question_lower
             \<or> contains ''what was i doing'' question_lower)
      in if is_summary_mode then ''SUMMARY_MODE'' else ''FACT_MODE'')"

text \<open>
  \<^verbatim>\<open>DigitalTwin.answer\<close> with \<^verbatim>\<open>debug=False\<close>; \<open>top_k\<close> and \<open>max_context_chars\<close> are the
  configured values. An exception that leaves the extractor leaves this function too.
\<close>

definition DigitalTwin_answer ::
  "int \<Rightarrow> int \<Rightarrow> ('s::linorder) externals \<Rightarrow> string \<Rightarrow> py_exception + verdict" where
  "DigitalTwin_answer top_k max_context_chars ext question =
     (let q = lower (strip question) in
      if q \<in> greetings then Inr greeting_reply
      else if q \<in> help_intents then Inr help_reply
      else
        let answer_mode = answer_mode_of (x_date_range ext) question;
            retrieval_result = retrieve top_k (x_scored ext) max_context_chars;
            retrieved_chunks = ret_chunks retrieval_result
        in case extract_evidence (x_decoder ext) (x_extraction ext) question retrieved_chunks
                  answer_mode of
             Inl e \<Rightarrow> Inl e
           | Inr evidence \<Rightarrow>
               Inr (apply_style (x_restyle ext)
                      (generate_answer (x_state ext) (x_answer ext) question evidence answer_mode)))"

section \<open>Notions used in the statements\<close>

text \<open>The item the selection loop appends for a scored candidate, and the summed text length.\<close>

definition selected_item :: "'s \<times> chunk \<Rightarrow> 's retrieved" where
  "selected_item sc = \<lparr>r_chunk = snd sc, r_score = fst sc\<rparr>"

definition chars_of :: "'s retrieved list \<Rightarrow> int" where
  "chars_of sel = sum_list (map (\<lambda>it. int (length (chunk_text (r_chunk it)))) sel)"

text \<open>
  The branches of \<^verbatim>\<open>generate_answer\<close> that return before the generation call: the question
  is sensitive, there is no evidence, or, outside summary mode, the entailment state is
  not yes.
\<close>

definition returns_before_generation ::
  "entailment \<Rightarrow> string \<Rightarrow> evidence \<Rightarrow> string \<Rightarrow> bool" where
  "returns_before_generation llm_state question evidence answer_mode =
     (contains_sensitive_info question []
      \<or> \<not> has_evidence evidence
      \<or> evidence_items evidence = []
      \<or> (answer_mode \<noteq> ''SUMMARY_MODE''
          \<and> entailment_state llm_state question (map ev_quote (evidence_items evidence)) \<noteq> Yes))"

text \<open>
  A text matches a sensitive pattern or holds a sensitive keyword; and the two shapes of a
  citation the assembly loop can append for an evidence item: the stripped quote as it is,
  or with the matches of the email pattern replaced.
\<close>

definition matches_sensitive :: "string \<Rightarrow> bool" where
  "matches_sensitive text =
     ((\<exists>pattern \<in> set sensitive_patterns. re_search True pattern text)
      \<or> (\<exists>keyword \<in> set sensitive_keywords. contains keyword (lower text)))"

definition plain_citation :: "evidence_item \<Rightarrow> citation" where
  "plain_citation ev =
     \<lparr>cit_text = strip (ev_quote ev), cit_source = ev_file ev, cit_chunk_id = ev_chunk_id ev,
      cit_timestamp = ev_timestamp ev\<rparr>"

definition redacted_citation :: "evidence_item \<Rightarrow> citation" where
  "redacted_citation ev =
     \<lparr>cit_text = redact_emails (strip (ev_quote ev)), cit_source = ev_file ev,
      cit_chunk_id = ev_chunk_id ev, cit_timestamp = ev_timestamp ev\<rparr>"

text \<open>
  Whether the assembly loop keeps the citation of an evidence item, and which of the two
  shapes it has.
\<close>

definition citation_kept :: "evidence_item \<Rightarrow> bool" where
  "citation_kept ev =
     (is_valid (strip (ev_quote ev))
      \<and> (contains ''identity.md'' (ev_file ev)
          \<or> \<not> matches_sensitive (redact_emails (strip (ev_quote ev)))))"

definition citation_form :: "evidence_item \<Rightarrow> citation" where
  "citation_form ev =
     (if contains ''identity.md'' (ev_file ev) then plain_citation ev else redacted_citation ev)"


section \<open>Example inputs\<close>

definition ex_chunk :: chunk where
  "ex_chunk = \<lparr>chunk_id = ''notes.md:0'', chunk_file = ''data/notes.md'',
               chunk_text = ''From a cold  state it took about 6 minutes.'',
               chunk_timestamp = None\<rparr>"

definition ex_retrieved :: "int retrieved list" where
  "ex_retrieved = [\<lparr>r_chunk = ex_chunk, r_score = 1\<rparr>]"

definition ex_decoder :: "string \<Rightarrow> py_exception + json" where
  "ex_decoder s =
     (if s = ''OK''
      then Inr (JObj [(''evidence'',
             JArr [JObj [(''chunk_index'', JInt 0), (''quote'', JStr '' cold state it took '')]])])
      else Inl JSONDecodeError)"

definition ex_scored :: "(int \<times> chunk) list option" where
  "ex_scored = Some [(1, ex_chunk), (3, ex_chunk\<lparr>chunk_id := ''notes.md:1''\<rparr>),
                     (3, ex_chunk\<lparr>chunk_id := ''notes.md:2''\<rparr>)]"

definition ex_externals :: "int externals" where
  "ex_externals =
     \<lparr>x_date_range = False, x_scored = ex_scored, x_decoder = ex_decoder,
      x_extraction = Some '' OK '', x_state = Yes, x_answer = Some ''About 6 minutes. '',
      x_restyle = (\<lambda>s. s)\<rparr>"

definition ex_ev1 :: evidence_item where
  "ex_ev1 = \<lparr>ev_quote = ''took 6 minutes'', ev_chunk_id = ''notes.md:0'',
             ev_file = ''data/notes.md'', ev_timestamp = None\<rparr>"

definition ex_ev2 :: evidence_item where
  "ex_ev2 = \<lparr>ev_quote = ''mail a@b.io'', ev_chunk_id = ''slack.md:4'',
             ev_file = ''data/slack.md'', ev_timestamp = None\<rparr>"

definition ex_evidence :: evidence where
  "ex_evidence = \<lparr>evidence_items = [ex_ev1, ex_ev2], has_evidence = True, raw_extraction = None\<rparr>"

definition ex_short_evidence :: evidence where
  "ex_short_evidence =
     \<lparr>evidence_items = [\<lparr>ev_quote = ''6 min'', ev_chunk_id = ''notes.md:0'',
                          ev_file = ''data/notes.md'', ev_timestamp = None\<rparr>],
      has_evidence = True, raw_extraction = None\<rparr>"




definition ex_mail_citation :: citation where
  "ex_mail_citation = \<lparr>cit_text = ''mail [redacted]'', cit_source = ''data/slack.md'',
                       cit_chunk_id = ''slack.md:4'', cit_timestamp = None\<rparr>"


text \<open>
  A response that is JSON but not the structure asked for: the index of its second item is
  a string. \<open>ex_json\<close> is what \<^verbatim>\<open>json.loads\<close> gives on it, on an empty array and on
  text that is not JSON.
\<close>

definition ex_ill_typed_response :: string where
  \<open>ex_ill_typed_response =
     ''{"evidence":[{"chunk_index":0,"quote":"cold state it took"},''
     @ ''{"chunk_index":"1","quote":"it took about"}]}''\<close>

definition ex_json :: "string \<Rightarrow> py_exception + json" where
  "ex_json s =
     (if s = ex_ill_typed_response
      then Inr (JObj [(''evidence'',
             JArr [JObj [(''chunk_index'', JInt 0), (''quote'', JStr ''cold state it took'')],
                   JObj [(''chunk_index'', JStr ''1''), (''quote'', JStr ''it took about'')]])])
      else if s = ''[]'' then Inr (JArr [])
      else Inl JSONDecodeError)"

text \<open>An evidence item from a file that is not the profile, though its name ends alike.\<close>

definition ex_team_ev :: "string \<Rightarrow> evidence_item" where
  "ex_team_ev file =
     \<lparr>ev_quote = ''mail a@b.io password x'', ev_chunk_id = ''team:0'', ev_file = file,
      ev_timestamp = None\<rparr>"

section \<open>Evaluation of the examples\<close>

text \<open>
  The definitions that the simplifier unfolds to run the model on a concrete input, and
  the runs that later proofs share.
\<close>

lemmas text_evals = code_def is_space_def lower_char_def lower_def strip_def split_def
  normalize_def remove_char_def

lemmas re_evals = is_digit_def is_AZ_def is_az_def is_word_def upper_char_def cls_match_def
  chr_match_def prev_after_def at_boundary_def re_search_def re_sub_def cls_alnum_def
  cls_digit_upper_def cls_colon_space_def cls_non_space_def cls_underscore_dash_def
  cls_email_local_def cls_email_domain_def cls_email_tld_def sensitive_patterns_def
  email_pattern_def

lemmas sensitive_evals = text_evals re_evals sensitive_keywords_def any_keyword_in_def
  contains_sensitive_info_def

lemma how_long_not_sensitive: "\<not> contains_sensitive_info ''How long?'' []"
  by (simp add: sensitive_evals)

lemma who_to_mail_not_sensitive: "\<not> contains_sensitive_info ''Who to mail?'' []"
  by (simp add: sensitive_evals)

lemma refusal_text_not_sensitive: "\<not> contains_sensitive_info refusal_text []"
  by (simp add: sensitive_evals refusal_text_def)

lemma refusal_text_is_refusal: "is_refusal refusal_text"
  by (simp add: is_refusal_def refusal_text_def text_evals)

lemma six_minutes_answer:
  "generated_text (Some ''6 minutes. '') = ''6 minutes.''"
  "\<not> contains_sensitive_info ''6 minutes.'' []"
  "\<not> is_refusal ''6 minutes.''"
  by (simp_all add: generated_text_def is_refusal_def sensitive_evals)

lemma token_answer:
  "generated_text (Some ''Token rotated.'') = ''Token rotated.''"
  "contains_sensitive_info ''Token rotated.'' []"
  "\<not> is_refusal ''Token rotated.''"
  by (simp_all add: generated_text_def is_refusal_def sensitive_evals)

lemma mail_answer:
  "generated_text (Some ''Mail them.'') = ''Mail them.''"
  "\<not> contains_sensitive_info ''Mail them.'' []"
  "\<not> is_refusal ''Mail them.''"
  by (simp_all add: generated_text_def is_refusal_def sensitive_evals)

lemma generated_text_None: "generated_text None = refusal_text"
  by (simp add: generated_text_def refusal_text_def text_evals)

lemma ex_cite1:
  "cite ex_ev1 = Some \<lparr>cit_text = ''took 6 minutes'', cit_source = ''data/notes.md'',
                        cit_chunk_id = ''notes.md:0'', cit_timestamp = None\<rparr>"
  by (simp add: cite_def ex_ev1_def is_valid_def redact_emails_def sensitive_evals)

lemma ex_cite2: "cite ex_ev2 = Some ex_mail_citation"
  by (simp add: cite_def ex_ev2_def ex_mail_citation_def is_valid_def redact_emails_def
      sensitive_evals)

lemma ex_cite_short: "build_citations (evidence_items ex_short_evidence) = []"
  by (simp add: cite_def ex_short_evidence_def is_valid_def text_evals)

lemma ex_evidence_not_identity: "\<not> is_from_identity (evidence_items ex_evidence)"
  by (simp add: is_from_identity_def ex_evidence_def ex_ev1_def ex_ev2_def)

lemma ex_short_evidence_not_identity: "\<not> is_from_identity (evidence_items ex_short_evidence)"
  by (simp add: is_from_identity_def ex_short_evidence_def)

lemma ex_evidence_ids: "card (set (map ev_chunk_id (evidence_items ex_evidence))) = 2"
  by (simp add: ex_evidence_def ex_ev1_def ex_ev2_def card_set)

section \<open>Properties of the extractor\<close>

lemma extract_has_evidence_iff:
  "extract_evidence decoder llm_output question retrieved_chunks answer_mode = Inr r
   \<Longrightarrow> has_evidence r = (evidence_items r \<noteq> [])"
  by (auto simp: extract_evidence_def Let_def split: if_splits prod.splits)

lemma extract_try_call_failed:
  "extract_try decoder empty_extraction retrieved_chunks min_len = ([], None)"
  by (simp add: extract_try_def json_loads_def strip_def empty_extraction_def is_space_def code_def)

lemma extract_try_decoder_raises:
  "json_loads decoder (strip t) = Inl e
   \<Longrightarrow> extract_try decoder t retrieved_chunks min_len = ([], Some e)"
  by (simp add: extract_try_def)

text \<open>
  The paths that do fail closed: when the generation call fails, or the decoder raises
  \<^verbatim>\<open>JSONDecodeError\<close>, the extractor returns no evidence item and \<open>has_evidence\<close> false;
  and whenever it returns, \<open>has_evidence\<close> is false exactly when the list is empty.
\<close>

lemma extract_decode_failure_empty:
  assumes "llm_output = None
           \<or> (\<exists>t. llm_output = Some t \<and> json_loads decoder (strip t) = Inl JSONDecodeError)"
  shows "\<exists>r. extract_evidence decoder llm_output question retrieved_chunks answer_mode = Inr r
               \<and> evidence_items r = [] \<and> \<not> has_evidence r"
proof (cases "retrieved_chunks = []")
  case True
  then show ?thesis by (simp add: extract_evidence_def)
next
  case False
  from assms show ?thesis
  proof
    assume "llm_output = None"
    with False show ?thesis
      by (simp add: extract_evidence_def extract_try_call_failed)
  next
    assume "\<exists>t. llm_output = Some t \<and> json_loads decoder (strip t) = Inl JSONDecodeError"
    then obtain t where "llm_output = Some t"
      "json_loads decoder (strip t) = Inl JSONDecodeError" by blast
    with False show ?thesis
      by (simp add: extract_evidence_def extract_try_decoder_raises)
  qed
qed

text \<open>
  An exception of the decoder that the handler does not name leaves the extractor: no
  result is returned.
\<close>

lemma extract_decoder_exception_escapes:
  assumes "retrieved_chunks \<noteq> []" and "json_loads decoder (strip t) = Inl e"
    and "e \<noteq> JSONDecodeError" and "e \<noteq> KeyError" and "e \<noteq> TypeError"
  shows "extract_evidence decoder (Some t) question retrieved_chunks answer_mode = Inl e"
  using assms by (simp add: extract_evidence_def extract_try_decoder_raises)

text \<open>
  Claim C5 asks that a response which is not well-formed structured output yields no
  evidence item, never a partial list. The code does not do that. On the response
  \<open>ex_ill_typed_response\<close>, whose first item is valid and whose second item has a string
  as index, the comparison of the index raises \<^verbatim>\<open>TypeError\<close> inside the loop; the handler
  catches it, and the item appended before it is returned with \<open>has_evidence\<close> true. On a
  response that is a JSON array, \<^verbatim>\<open>data.get\<close> raises \<^verbatim>\<open>AttributeError\<close>, which the handler
  does not catch, so nothing is returned at all.
\<close>

theorem extract_partial_on_ill_typed_response:
  "extract_evidence ex_json (Some ex_ill_typed_response) ''q'' ex_retrieved ''FACT_MODE'' =
      Inr \<lparr>evidence_items = [\<lparr>ev_quote = ''cold state it took'', ev_chunk_id = ''notes.md:0'',
                                 ev_file = ''data/notes.md'', ev_timestamp = None\<rparr>],
           has_evidence = True, raw_extraction = Some ex_ill_typed_response\<rparr>
   \<and> extract_evidence ex_json (Some ''[]'') ''q'' ex_retrieved ''FACT_MODE'' = Inl AttributeError"
proof
  have loads: "json_loads ex_json (strip ex_ill_typed_response)
      = Inr (JObj [(''evidence'',
             JArr [JObj [(''chunk_index'', JInt 0), (''quote'', JStr ''cold state it took'')],
                   JObj [(''chunk_index'', JStr ''1''), (''quote'', JStr ''it took about'')]])])"
    by (simp add: json_loads_def ex_json_def ex_ill_typed_response_def empty_extraction_def
        text_evals)
  have first: "process_item ex_retrieved 8
      (JObj [(''chunk_index'', JInt 0), (''quote'', JStr ''cold state it took'')])
      = Inr (Some \<lparr>ev_quote = ''cold state it took'', ev_chunk_id = ''notes.md:0'',
                     ev_file = ''data/notes.md'', ev_timestamp = None\<rparr>)"
    by (simp add: process_item_def int_index_def ex_retrieved_def ex_chunk_def text_evals)
  have second: "process_item ex_retrieved 8
      (JObj [(''chunk_index'', JStr ''1''), (''quote'', JStr ''it took about'')])
      = Inl TypeError"
    by (simp add: process_item_def text_evals)
  show "extract_evidence ex_json (Some ex_ill_typed_response) ''q'' ex_retrieved ''FACT_MODE'' =
      Inr \<lparr>evidence_items = [\<lparr>ev_quote = ''cold state it took'', ev_chunk_id = ''notes.md:0'',
                                 ev_file = ''data/notes.md'', ev_timestamp = None\<rparr>],
           has_evidence = True, raw_extraction = Some ex_ill_typed_response\<rparr>"
    by (simp add: extract_evidence_def extract_try_def loads first second min_quote_length_def)
       (simp add: ex_retrieved_def)
next
  have "json_loads ex_json (strip ''[]'') = Inr (JArr [])"
    by (simp add: json_loads_def ex_json_def ex_ill_typed_response_def empty_extraction_def
        text_evals)
  then show "extract_evidence ex_json (Some ''[]'') ''q'' ex_retrieved ''FACT_MODE''
      = Inl AttributeError"
    by (simp add: extract_evidence_def extract_try_def ex_retrieved_def)
qed

section \<open>Properties of retrieval\<close>

lemma chars_of_append: "chars_of (xs @ ys) = chars_of xs + chars_of ys"
  by (simp add: chars_of_def)

lemma chars_of_nonneg: "0 \<le> chars_of xs"
  by (induction xs) (simp_all add: chars_of_def)

lemma select_loop_prefix:
  "select_loop top_k m cands sel tot = (sel', tot') \<Longrightarrow>
   \<exists>n \<le> length cands.
      sel' = sel @ map selected_item (take n cands)
      \<and> tot' = tot + chars_of (map selected_item (take n cands))
      \<and> (n < length cands \<longrightarrow>
            int (length sel') \<ge> top_k \<or> tot' + int (length (chunk_text (snd (cands ! n)))) > m)
      \<and> (n > 0 \<longrightarrow> int (length sel') \<le> top_k \<and> tot' \<le> m)"
proof (induction top_k m cands sel tot rule: select_loop.induct)
  case (1 top_k m sel tot)
  then show ?case by (simp add: chars_of_def)
next
  case (2 top_k m score chunk rest sel tot)
  show ?case
  proof (cases "int (length sel) \<ge> top_k \<or> tot + int (length (chunk_text chunk)) > m")
    case True
    with "2.prems" have "sel' = sel" "tot' = tot" by (auto split: if_splits)
    with True show ?thesis
      by (intro exI [of _ 0]) (auto simp: chars_of_def)
  next
    case False
    let ?it = "\<lparr>r_chunk = chunk, r_score = score\<rparr>"
    let ?len = "int (length (chunk_text chunk))"
    from False "2.prems" have run:
      "select_loop top_k m rest (sel @ [?it]) (tot + ?len) = (sel', tot')" by simp
    from False have "\<not> top_k \<le> int (length sel)" "\<not> m < tot + ?len" by auto
    from "2.IH" [OF this run] obtain n where n: "n \<le> length rest"
      "sel' = (sel @ [?it]) @ map selected_item (take n rest)"
      "tot' = tot + ?len + chars_of (map selected_item (take n rest))"
      "n < length rest \<longrightarrow>
         int (length sel') \<ge> top_k \<or> tot' + int (length (chunk_text (snd (rest ! n)))) > m"
      "n > 0 \<longrightarrow> int (length sel') \<le> top_k \<and> tot' \<le> m"
      by blast
    have bound: "int (length sel') \<le> top_k \<and> tot' \<le> m"
    proof (cases "n > 0")
      case True
      with n(5) show ?thesis by simp
    next
      case False
      with n(2,3) have "sel' = sel @ [?it]" "tot' = tot + ?len" by (simp_all add: chars_of_def)
      with \<open>\<not> top_k \<le> int (length sel)\<close> \<open>\<not> m < tot + ?len\<close> show ?thesis by simp
    qed
    show ?thesis
    proof (intro exI [of _ "Suc n"] conjI impI)
      show "Suc n \<le> length ((score, chunk) # rest)" using n(1) by simp
      show "sel' = sel @ map selected_item (take (Suc n) ((score, chunk) # rest))"
        using n(2) by (simp add: selected_item_def)
      show "tot' = tot + chars_of (map selected_item (take (Suc n) ((score, chunk) # rest)))"
        using n(3) by (simp add: selected_item_def chars_of_def)
      show "int (length sel') \<le> top_k" using bound by simp
      show "tot' \<le> m" using bound by simp
    next
      assume "Suc n < length ((score, chunk) # rest)"
      then have "n < length rest" by simp
      with n(4) show "top_k \<le> int (length sel')
          \<or> m < tot' + int (length (chunk_text (snd (((score, chunk) # rest) ! Suc n))))"
        by simp
    qed
  qed
qed

lemma sort_scores_sorted: "sorted (rev (map fst (sort_scores scores)))"
  by (simp add: sort_scores_def rev_map)

lemma sort_scores_mset: "mset (sort_scores scores) = mset scores"
  by (simp add: sort_scores_def)

text \<open>
  Claim C8. For a non-negative \<open>top_k\<close> and character budget, the selected chunks have a
  summed text length within the budget and are at most \<open>top_k\<close>. They are a prefix of the
  candidates in descending score order (a permutation of the scored candidates), and when
  a candidate is left over, the first one left over would have broken one of the two
  bounds.
\<close>

theorem retrieve_within_budget:
  assumes "0 \<le> top_k" and "0 \<le> max_context_chars"
  shows "chars_of (ret_chunks (retrieve top_k scored max_context_chars)) \<le> max_context_chars
    \<and> int (length (ret_chunks (retrieve top_k scored max_context_chars))) \<le> top_k
    \<and> (case scored of
          None \<Rightarrow> ret_chunks (retrieve top_k scored max_context_chars) = []
        | Some scores \<Rightarrow>
            sorted (rev (map fst (sort_scores scores)))
            \<and> mset (sort_scores scores) = mset scores
            \<and> (\<exists>n \<le> length scores.
                  ret_chunks (retrieve top_k scored max_context_chars)
                    = map selected_item (take n (sort_scores scores))
                  \<and> (n < length scores \<longrightarrow>
                        int n \<ge> top_k
                        \<or> chars_of (map selected_item (take n (sort_scores scores)))
                            + int (length (chunk_text (snd (sort_scores scores ! n))))
                          > max_context_chars)))"
proof (cases scored)
  case None
  with assms show ?thesis by (simp add: retrieve_def chars_of_def)
next
  case (Some scores)
  obtain sel tot where run:
    "select_loop top_k max_context_chars (sort_scores scores) [] 0 = (sel, tot)"
    by (cases "select_loop top_k max_context_chars (sort_scores scores) [] 0") auto
  with Some have sel: "ret_chunks (retrieve top_k scored max_context_chars) = sel"
    by (simp add: retrieve_def)
  have len: "length (sort_scores scores) = length scores"
    by (simp add: sort_scores_def)
  from select_loop_prefix [OF run] have "\<exists>n \<le> length (sort_scores scores).
    sel = map selected_item (take n (sort_scores scores))
    \<and> tot = chars_of (map selected_item (take n (sort_scores scores)))
    \<and> (n < length (sort_scores scores) \<longrightarrow>
       int (length sel) \<ge> top_k
       \<or> tot + int (length (chunk_text (snd (sort_scores scores ! n)))) > max_context_chars)
    \<and> (n > 0 \<longrightarrow> int (length sel) \<le> top_k \<and> tot \<le> max_context_chars)"
    by simp
  then obtain n where n: "n \<le> length (sort_scores scores)"
    "sel = map selected_item (take n (sort_scores scores))"
    "tot = chars_of (map selected_item (take n (sort_scores scores)))"
    "n < length (sort_scores scores) \<longrightarrow>
       int (length sel) \<ge> top_k
       \<or> tot + int (length (chunk_text (snd (sort_scores scores ! n)))) > max_context_chars"
    "n > 0 \<longrightarrow> int (length sel) \<le> top_k \<and> tot \<le> max_context_chars"
    by blast
  have n_len: "length sel = n" using n(1,2) by simp
  have bounds: "chars_of sel \<le> max_context_chars \<and> int (length sel) \<le> top_k"
  proof (cases "n > 0")
    case True
    with n(5) n(2,3) show ?thesis by simp
  next
    case False
    with n(2) assms show ?thesis by (simp add: chars_of_def)
  qed
  have greedy: "\<exists>n \<le> length scores.
      sel = map selected_item (take n (sort_scores scores))
      \<and> (n < length scores \<longrightarrow>
            int n \<ge> top_k
            \<or> chars_of (map selected_item (take n (sort_scores scores)))
                + int (length (chunk_text (snd (sort_scores scores ! n))))
              > max_context_chars)"
    using n(1,2,3,4) n_len len by (intro exI [of _ n]) auto
  show ?thesis
    using Some sel bounds greedy sort_scores_sorted [of scores] sort_scores_mset [of scores]
    by simp
qed

theorem retrieve_within_budget_witness:
  "(0::int) \<le> 2 \<and> (0::int) \<le> 50
   \<and> chars_of (ret_chunks (retrieve 2 ex_scored 50)) \<le> 50
   \<and> length (ret_chunks (retrieve 2 ex_scored 50)) = 1"
proof -
  have "length (ret_chunks (retrieve 2 ex_scored 50)) = 1"
    by (simp add: retrieve_def sort_scores_def ex_scored_def ex_chunk_def)
  then show ?thesis
    using retrieve_within_budget [of 2 50 ex_scored] by simp
qed

section \<open>Properties of the orchestrator\<close>

lemma greeting_reply_fields: "confidence greeting_reply = Conf_none \<and> citations greeting_reply = []"
  by (simp add: greeting_reply_def)

lemma help_reply_fields: "confidence help_reply = Conf_none \<and> citations help_reply = []"
  by (simp add: help_reply_def)

text \<open>
  Claim C10. When the stripped, lower-cased question is one of the greeting or help
  strings, the answer is one of the two canned replies, with confidence none and no
  citations, whatever the configuration and whatever retrieval, extraction and the gate
  would have been given: none of them is consulted.
\<close>

theorem ui_intents_canned:
  assumes "lower (strip question) \<in> greetings \<union> help_intents"
  shows "\<exists>v. (\<forall>top_k max_context_chars (ext :: ('s::linorder) externals).
                 DigitalTwin_answer top_k max_context_chars ext question = Inr v)
             \<and> (v = greeting_reply \<or> v = help_reply)
             \<and> confidence v = Conf_none \<and> citations v = []"
proof (cases "lower (strip question) \<in> greetings")
  case True
  then have "\<forall>top_k max_context_chars (ext :: 's externals).
      DigitalTwin_answer top_k max_context_chars ext question = Inr greeting_reply"
    by (simp add: DigitalTwin_answer_def)
  then show ?thesis using greeting_reply_fields by blast
next
  case False
  with assms have "lower (strip question) \<in> help_intents" by simp
  with False have "\<forall>top_k max_context_chars (ext :: 's externals).
      DigitalTwin_answer top_k max_context_chars ext question = Inr help_reply"
    by (simp add: DigitalTwin_answer_def)
  then show ?thesis using help_reply_fields by blast
qed

theorem ui_intents_canned_witness:
  "lower (strip ''  Hello '') \<in> greetings \<union> help_intents
   \<and> DigitalTwin_answer 6 3000 ex_externals ''  Hello '' = Inr greeting_reply"
proof -
  have h: "lower (strip ''  Hello '') \<in> greetings \<union> help_intents"
    by (simp add: lower_def strip_def is_space_def code_def lower_char_def greetings_def)
  have "greeting_reply \<noteq> help_reply"
    by (simp add: greeting_reply_def help_reply_def)
  moreover have "DigitalTwin_answer 6 3000 ex_externals ''  Hello '' \<noteq> Inr help_reply"
    using h by (simp add: DigitalTwin_answer_def lower_def strip_def is_space_def code_def lower_char_def greetings_def greeting_reply_def help_reply_def)
  ultimately show ?thesis
    using ui_intents_canned [OF h, where 's = int] h by metis
qed

section \<open>Properties of the verifier gate\<close>

lemma no_pattern_in_empty: "\<not> list_ex (\<lambda>pattern. re_search True pattern []) sensitive_patterns"
  by (simp add: re_evals)

lemma no_keyword_in_empty: "\<not> any_keyword_in (lower [])"
  by (simp add: any_keyword_in_def sensitive_keywords_def lower_def)

lemma any_keyword_in_iff:
  "any_keyword_in t = (\<exists>keyword \<in> set sensitive_keywords. contains keyword t)"
  by (simp add: any_keyword_in_def list_ex_iff)

lemma identity_not_in_empty: "\<not> contains ''identity.md'' []"
  by simp

lemma contains_sensitive_info_question:
  "contains_sensitive_info text [] =
     ((\<exists>pattern \<in> set sensitive_patterns. re_search True pattern text)
      \<or> (\<exists>keyword \<in> set sensitive_keywords. contains keyword (lower text)))"
proof (cases "text = []")
  case True
  then show ?thesis
    using no_pattern_in_empty no_keyword_in_empty
    by (simp add: contains_sensitive_info_def list_ex_iff any_keyword_in_iff)
next
  case False
  then show ?thesis
    by (auto simp add: contains_sensitive_info_def list_ex_iff any_keyword_in_iff)
qed

text \<open>
  Claim C3. A question in which one of the sensitive patterns matches, or whose lower-case
  form contains one of the sensitive keywords, gets the fixed block response, with
  confidence none and no citations, for every evidence input, answer mode and model
  output: the test comes before every other branch.
\<close>

theorem sensitive_question_blocked:
  assumes "(\<exists>pattern \<in> set sensitive_patterns. re_search True pattern question)
           \<or> (\<exists>keyword \<in> set sensitive_keywords. contains keyword (lower question))"
  shows "generate_answer llm_state llm_answer question evidence answer_mode = question_blocked
         \<and> confidence question_blocked = Conf_none \<and> citations question_blocked = []"
proof -
  from assms have "contains_sensitive_info question []"
    by (simp only: contains_sensitive_info_question)
  then show ?thesis
    by (simp add: generate_answer_def question_blocked_def)
qed

theorem sensitive_question_blocked_witness:
  "(\<exists>keyword \<in> set sensitive_keywords. contains keyword (lower ''My password?''))
   \<and> generate_answer Yes (Some ''It is hunter2.'') ''My password?'' ex_evidence
         ''FACT_MODE'' = question_blocked"
proof -
  have "contains ''password'' (lower ''My password?'')"
    by (simp add: text_evals)
  then have h: "\<exists>keyword \<in> set sensitive_keywords. contains keyword (lower ''My password?'')"
    by (simp add: sensitive_keywords_def)
  then show ?thesis
    using sensitive_question_blocked [of "''My password?''" Yes
        "Some ''It is hunter2.''" ex_evidence "''FACT_MODE''"]
    by simp
qed

lemma refusal_fields:
  "answer (refusal why) = refusal_text \<and> confidence (refusal why) = Conf_none
   \<and> citations (refusal why) = []"
  by (simp add: refusal_def)

text \<open>
  Claim C4. Outside summary mode, when the evidence list is not empty and the entailment
  check gives no, the verdict has confidence none and no citations, and its answer is the
  refusal text (or the block response, when the question itself is sensitive), for every
  question and however many evidence items there are.
\<close>

theorem entailment_no_refuses:
  assumes "answer_mode \<noteq> ''SUMMARY_MODE''"
    and "evidence_items evidence \<noteq> []"
    and "entailment_state llm_state question (map ev_quote (evidence_items evidence)) = No"
  shows "confidence (generate_answer llm_state llm_answer question evidence answer_mode) = Conf_none
    \<and> citations (generate_answer llm_state llm_answer question evidence answer_mode) = []
    \<and> (answer (generate_answer llm_state llm_answer question evidence answer_mode) = refusal_text
        \<or> generate_answer llm_state llm_answer question evidence answer_mode = question_blocked)"
proof (cases "contains_sensitive_info question []")
  case True
  then show ?thesis by (simp add: generate_answer_def question_blocked_def)
next
  case False
  with assms show ?thesis
    by (simp add: generate_answer_def refusal_fields Let_def)
qed

theorem entailment_no_refuses_witness:
  "''FACT_MODE'' \<noteq> ''SUMMARY_MODE'' \<and> evidence_items ex_evidence \<noteq> []
   \<and> entailment_state No ''How long?''
        (map ev_quote (evidence_items ex_evidence)) = No
   \<and> confidence (generate_answer No (Some ''6 minutes. '')
        ''How long?'' ex_evidence ''FACT_MODE'') = Conf_none
   \<and> citations (generate_answer No (Some ''6 minutes. '')
        ''How long?'' ex_evidence ''FACT_MODE'') = []"
proof -
  have h1: "''FACT_MODE'' \<noteq> ''SUMMARY_MODE''" by simp
  have h2: "evidence_items ex_evidence \<noteq> []" by (simp add: ex_evidence_def)
  have h3: "entailment_state No ''How long?''
        (map ev_quote (evidence_items ex_evidence)) = No"
    by (simp add: entailment_state_def)
  from entailment_no_refuses [OF h1 h2 h3, of "Some ''6 minutes. ''"] h1 h2 h3
  show ?thesis by simp
qed

lemma quote_loop_picks:
  "quote_loop evs seen ls = (seen', ls') \<Longrightarrow>
   \<exists>picked. subseq picked evs
     \<and> distinct (map ev_chunk_id picked)
     \<and> set (map ev_chunk_id picked) \<inter> seen = {}
     \<and> seen' = seen \<union> set (map ev_chunk_id picked)
     \<and> ls' = ls @ map (\<lambda>ev. ''- '' @ ev_quote ev) picked
     \<and> (length ls \<le> 3 \<longrightarrow> length ls' \<le> 3)
     \<and> (evs \<noteq> [] \<and> ev_chunk_id (hd evs) \<notin> seen \<and> length ls < 3 \<longrightarrow> picked \<noteq> [])"
proof (induction evs arbitrary: seen ls)
  case Nil
  then show ?case by (intro exI [of _ "[]"]) auto
next
  case (Cons ev evs)
  show ?case
  proof (cases "ev_chunk_id ev \<notin> seen \<and> length ls < 3")
    case True
    with Cons.prems have
      "quote_loop evs (insert (ev_chunk_id ev) seen) (ls @ [''- '' @ ev_quote ev]) = (seen', ls')"
      by simp
    from Cons.IH [OF this] obtain picked where p: "subseq picked evs"
      "distinct (map ev_chunk_id picked)"
      "set (map ev_chunk_id picked) \<inter> insert (ev_chunk_id ev) seen = {}"
      "seen' = insert (ev_chunk_id ev) seen \<union> set (map ev_chunk_id picked)"
      "ls' = (ls @ [''- '' @ ev_quote ev]) @ map (\<lambda>ev. ''- '' @ ev_quote ev) picked"
      "length (ls @ [''- '' @ ev_quote ev]) \<le> 3 \<longrightarrow> length ls' \<le> 3"
      by blast
    show ?thesis
    proof (intro exI [of _ "ev # picked"] conjI)
      show "subseq (ev # picked) (ev # evs)" using p(1) by simp
      show "distinct (map ev_chunk_id (ev # picked))" using p(2,3) by auto
      show "set (map ev_chunk_id (ev # picked)) \<inter> seen = {}" using p(3) True by auto
      show "seen' = seen \<union> set (map ev_chunk_id (ev # picked))" using p(4) by auto
      show "ls' = ls @ map (\<lambda>ev. ''- '' @ ev_quote ev) (ev # picked)" using p(5) by simp
      show "length ls \<le> 3 \<longrightarrow> length ls' \<le> 3" using p(6) True by simp
      show "ev # evs \<noteq> [] \<and> ev_chunk_id (hd (ev # evs)) \<notin> seen \<and> length ls < 3
            \<longrightarrow> ev # picked \<noteq> []" by simp
    qed
  next
    case False
    with Cons.prems have "quote_loop evs seen ls = (seen', ls')" by auto
    from Cons.IH [OF this] obtain picked where p: "subseq picked evs"
      "distinct (map ev_chunk_id picked)"
      "set (map ev_chunk_id picked) \<inter> seen = {}"
      "seen' = seen \<union> set (map ev_chunk_id picked)"
      "ls' = ls @ map (\<lambda>ev. ''- '' @ ev_quote ev) picked"
      "length ls \<le> 3 \<longrightarrow> length ls' \<le> 3"
      by blast
    show ?thesis
    proof (intro exI [of _ picked] conjI)
      show "subseq picked (ev # evs)" using p(1) by (rule list_emb_Cons)
      show "ev # evs \<noteq> [] \<and> ev_chunk_id (hd (ev # evs)) \<notin> seen \<and> length ls < 3
            \<longrightarrow> picked \<noteq> []" using False by auto
    qed (use p in auto)
  qed
qed

lemma quote_loop_start:
  assumes "evs \<noteq> []" and "quote_loop evs {} [] = (seen, ls)"
  shows "\<exists>picked. subseq picked evs \<and> distinct (map ev_chunk_id picked)
     \<and> 1 \<le> length picked \<and> length picked \<le> 3
     \<and> seen = set (map ev_chunk_id picked)
     \<and> ls = map (\<lambda>ev. ''- '' @ ev_quote ev) picked"
proof -
  from quote_loop_picks [OF assms(2)] obtain picked where p: "subseq picked evs"
    "distinct (map ev_chunk_id picked)" "seen = {} \<union> set (map ev_chunk_id picked)"
    "ls = [] @ map (\<lambda>ev. ''- '' @ ev_quote ev) picked"
    "length ([] :: string list) \<le> 3 \<longrightarrow> length ls \<le> 3"
    "evs \<noteq> [] \<and> ev_chunk_id (hd evs) \<notin> {} \<and> length ([] :: string list) < 3 \<longrightarrow> picked \<noteq> []"
    by blast
  from p(6) assms(1) have "picked \<noteq> []" by simp
  then have "1 \<le> length picked" by (cases picked) auto
  moreover from p(4,5) have "length picked \<le> 3" by simp
  ultimately show ?thesis using p(1,2,3,4) by auto
qed

lemma subseq_nonempty_filter:
  assumes "subseq picked evs" and "picked \<noteq> []"
  shows "filter (\<lambda>ev. f ev \<in> set (map f picked)) evs \<noteq> []"
proof -
  from assms(2) obtain x where "x \<in> set picked" by (cases picked) auto
  with assms(1) have "x \<in> set evs" by (auto elim: list_emb_set)
  with \<open>x \<in> set picked\<close> have "x \<in> set (filter (\<lambda>ev. f ev \<in> set (map f picked)) evs)" by auto
  then show ?thesis by (metis empty_iff empty_set)
qed



lemma generate_and_cite_confidence:
  assumes "is_from_identity evs \<or> \<not> contains_sensitive_info (generated_text llm_answer) []"
  shows "confidence (generate_and_cite llm_answer evs boost) =
     (if is_refusal (generated_text llm_answer) then Conf_none
      else case boost of Some b \<Rightarrow> b
           | None \<Rightarrow> if length (build_citations evs) \<ge> 2 then Conf_high else Conf_medium)"
    and "answer (generate_and_cite llm_answer evs boost) = generated_text llm_answer"
    and "citations (generate_and_cite llm_answer evs boost) = build_citations evs"
  using assms by (auto simp: generate_and_cite_def Let_def)

lemma generate_and_cite_blocked:
  assumes "\<not> is_from_identity evs" and "contains_sensitive_info (generated_text llm_answer) []"
  shows "generate_and_cite llm_answer evs boost = answer_blocked"
  using assms by (simp add: generate_and_cite_def Let_def)

lemma summary_mode_path:
  assumes "\<not> contains_sensitive_info question []"
    and "has_evidence evidence" and "evidence_items evidence \<noteq> []"
  shows "generate_answer llm_state llm_answer question evidence ''SUMMARY_MODE'' =
     generate_and_cite llm_answer (evidence_items evidence)
       (Some (if card (set (map ev_chunk_id (evidence_items evidence))) \<ge> 2
              then Conf_high else Conf_medium))"
  using assms by (simp add: generate_answer_def Let_def)

text \<open>
  Claim C7, amended. In summary mode, for a question that passes the sensitive-topic test
  and a non-empty evidence set, when the generated answer is not a refusal phrase and is
  not blocked by the scan of the generated text, the confidence is high for at least two
  distinct chunk ids and medium for exactly one; the verdict is the same for every
  entailment state, since no entailment check is run.
\<close>

theorem summary_confidence:
  assumes "\<not> contains_sensitive_info question []"
    and "has_evidence evidence" and "evidence_items evidence \<noteq> []"
    and "\<not> is_refusal (generated_text llm_answer)"
    and "is_from_identity (evidence_items evidence)
         \<or> \<not> contains_sensitive_info (generated_text llm_answer) []"
  shows "confidence (generate_answer llm_state llm_answer question evidence ''SUMMARY_MODE'')
      = (if card (set (map ev_chunk_id (evidence_items evidence))) \<ge> 2
         then Conf_high else Conf_medium)
    \<and> 1 \<le> card (set (map ev_chunk_id (evidence_items evidence)))
    \<and> (\<forall>other_state. generate_answer other_state llm_answer question evidence ''SUMMARY_MODE''
          = generate_answer llm_state llm_answer question evidence ''SUMMARY_MODE'')"
proof -
  have "set (map ev_chunk_id (evidence_items evidence)) \<noteq> {}"
    using assms(3) by simp
  then have "card (set (map ev_chunk_id (evidence_items evidence))) \<noteq> 0"
    by (simp del: set_map)
  then have "1 \<le> card (set (map ev_chunk_id (evidence_items evidence)))" by arith
  then show ?thesis
    using assms by (simp add: summary_mode_path generate_and_cite_confidence del: set_map)
qed

text \<open>
  The claim as stated fails: with evidence from two chunks and a generated answer that is
  no refusal phrase but mentions a token, the scan of the generated text blocks the answer
  and the confidence is none.
\<close>

theorem summary_confidence_counterexample:
  "\<not> contains_sensitive_info ''How long?'' []
   \<and> has_evidence ex_evidence
   \<and> card (set (map ev_chunk_id (evidence_items ex_evidence))) = 2
   \<and> \<not> is_refusal (generated_text (Some ''Token rotated.''))
   \<and> confidence (generate_answer Yes (Some ''Token rotated.'') ''How long?'' ex_evidence
        ''SUMMARY_MODE'') = Conf_none"
proof -
  have "generate_answer Yes (Some ''Token rotated.'') ''How long?'' ex_evidence ''SUMMARY_MODE''
      = answer_blocked"
    using how_long_not_sensitive ex_evidence_not_identity
    by (simp add: generate_answer_def generate_and_cite_def token_answer ex_evidence_ids
        del: set_map) (simp add: ex_evidence_def)
  then show ?thesis
    using how_long_not_sensitive ex_evidence_ids token_answer
    by (simp add: answer_blocked_def ex_evidence_def del: set_map)
qed

theorem summary_confidence_witness:
  "\<not> contains_sensitive_info ''How long?'' []
   \<and> has_evidence ex_evidence \<and> evidence_items ex_evidence \<noteq> []
   \<and> \<not> is_refusal (generated_text (Some ''6 minutes. ''))
   \<and> \<not> contains_sensitive_info (generated_text (Some ''6 minutes. '')) []
   \<and> confidence (generate_answer Yes (Some ''6 minutes. '') ''How long?'' ex_evidence
        ''SUMMARY_MODE'') = Conf_high"
proof -
  have h1: "\<not> contains_sensitive_info ''How long?'' []" by (rule how_long_not_sensitive)
  have h2: "has_evidence ex_evidence" and h3: "evidence_items ex_evidence \<noteq> []"
    by (simp_all add: ex_evidence_def)
  have h4: "\<not> is_refusal (generated_text (Some ''6 minutes. ''))"
    by (simp add: six_minutes_answer)
  have h5: "\<not> contains_sensitive_info (generated_text (Some ''6 minutes. '')) []"
    by (simp add: six_minutes_answer)
  from summary_confidence [OF h1 h2 h3 h4 disjI2 [OF h5], of Yes] ex_evidence_ids h1 h2 h3 h4 h5
  show ?thesis by simp
qed

lemma quote_only_citations_nonempty:
  assumes "evs \<noteq> []" and "quote_loop evs {} [] = (seen, ls)"
  shows "quote_only_citations evs seen \<noteq> []"
proof -
  from quote_loop_start [OF assms] obtain picked where p: "subseq picked evs"
    "1 \<le> length picked" "seen = set (map ev_chunk_id picked)" by blast
  from p(2) have "picked \<noteq> []" by auto
  from subseq_nonempty_filter [OF p(1) this, of ev_chunk_id] p(3)
  show ?thesis by (simp add: quote_only_citations_def)
qed

lemma early_return_coupling:
  assumes "returns_before_generation llm_state question evidence answer_mode"
  shows "(confidence (generate_answer llm_state llm_answer question evidence answer_mode) = Conf_none)
       = (citations (generate_answer llm_state llm_answer question evidence answer_mode) = [])"
proof (cases "contains_sensitive_info question [] \<or> \<not> has_evidence evidence
                \<or> evidence_items evidence = []")
  case True
  then show ?thesis
    by (auto simp: generate_answer_def question_blocked_def refusal_def)
next
  case False
  with assms have fact: "answer_mode \<noteq> ''SUMMARY_MODE''"
    and st: "entailment_state llm_state question (map ev_quote (evidence_items evidence)) \<noteq> Yes"
    by (auto simp: returns_before_generation_def)
  obtain seen ls where run: "quote_loop (evidence_items evidence) {} [] = (seen, ls)"
    by (cases "quote_loop (evidence_items evidence) {} []") auto
  from False have ne: "evidence_items evidence \<noteq> []" by simp
  show ?thesis
  proof (cases "entailment_state llm_state question (map ev_quote (evidence_items evidence))")
    case Yes
    with st show ?thesis by simp
  next
    case No
    with False fact show ?thesis
      by (simp add: generate_answer_def refusal_def Let_def)
  next
    case Unknown
    with False fact run quote_only_citations_nonempty [OF ne run] show ?thesis
      by (simp add: generate_answer_def refusal_def Let_def)
  qed
qed

lemma none_without_citations_or_refusal:
  "confidence (generate_answer llm_state llm_answer question evidence answer_mode) = Conf_none
   \<Longrightarrow> citations (generate_answer llm_state llm_answer question evidence answer_mode) = []
       \<or> is_refusal (answer (generate_answer llm_state llm_answer question evidence answer_mode))"
proof (cases "returns_before_generation llm_state question evidence answer_mode")
  case True
  assume "confidence (generate_answer llm_state llm_answer question evidence answer_mode) = Conf_none"
  with early_return_coupling [OF True] show ?thesis by simp
next
  case False
  assume none: "confidence (generate_answer llm_state llm_answer question evidence answer_mode) = Conf_none"
  from False have nb: "\<not> contains_sensitive_info question []" "has_evidence evidence"
    "evidence_items evidence \<noteq> []"
    and mode: "answer_mode = ''SUMMARY_MODE''
      \<or> entailment_state llm_state question (map ev_quote (evidence_items evidence)) = Yes"
    by (auto simp: returns_before_generation_def)
  have "set (map ev_chunk_id (evidence_items evidence)) \<noteq> {}" using nb(3) by simp
  then have card: "card (set (map ev_chunk_id (evidence_items evidence))) \<noteq> 0"
    by (simp del: set_map)
  from nb mode card obtain boost where gen:
    "generate_answer llm_state llm_answer question evidence answer_mode
       = generate_and_cite llm_answer (evidence_items evidence) boost"
    by (cases "answer_mode = ''SUMMARY_MODE''") (auto simp: generate_answer_def Let_def simp del: set_map)
  show ?thesis
  proof (cases "is_from_identity (evidence_items evidence)
                 \<or> \<not> contains_sensitive_info (generated_text llm_answer) []")
    case True
    show ?thesis
    proof (cases "is_refusal (generated_text llm_answer)")
      case True
      with \<open>is_from_identity (evidence_items evidence)
                 \<or> \<not> contains_sensitive_info (generated_text llm_answer) []\<close>
      show ?thesis by (simp add: gen generate_and_cite_confidence)
    next
      case nr: False
      from none mode nb card True nr have False
        by (cases "answer_mode = ''SUMMARY_MODE''")
           (auto simp: generate_answer_def Let_def generate_and_cite_confidence
                 simp del: set_map split: if_splits)
      then show ?thesis ..
    qed
  next
    case False
    then show ?thesis by (simp add: gen generate_and_cite_blocked answer_blocked_def)
  qed
qed

text \<open>
  Claim C2, amended. For every verdict of the gate: when the confidence is none, the
  citation list is empty or the answer reads as a refusal phrase; and on every branch that
  returns before the generation call (sensitive question, no evidence, entailment no or
  unknown) the confidence is none exactly when the citation list is empty.
\<close>

theorem refusal_citation_coupling:
  "(confidence (generate_answer llm_state llm_answer question evidence answer_mode) = Conf_none
      \<longrightarrow> citations (generate_answer llm_state llm_answer question evidence answer_mode) = []
          \<or> is_refusal (answer (generate_answer llm_state llm_answer question evidence answer_mode)))
   \<and> (returns_before_generation llm_state question evidence answer_mode
      \<longrightarrow> (confidence (generate_answer llm_state llm_answer question evidence answer_mode) = Conf_none)
          = (citations (generate_answer llm_state llm_answer question evidence answer_mode) = []))"
  using none_without_citations_or_refusal early_return_coupling by blast

text \<open>
  The claim as stated fails in both directions. When the generation call fails, the
  canonical refusal text is the answer and the confidence is none, yet the citations of
  the evidence are attached. When the only quote is too short to be cited, the generated
  answer keeps confidence medium with no citation.
\<close>

theorem refusal_citation_coupling_counterexample:
  "confidence (generate_answer Yes None ''How long?'' ex_evidence ''FACT_MODE'') = Conf_none
   \<and> length (citations (generate_answer Yes None ''How long?'' ex_evidence ''FACT_MODE'')) = 2
   \<and> confidence (generate_answer Yes (Some ''6 minutes. '') ''How long?''
        ex_short_evidence ''SUMMARY_MODE'') = Conf_medium
   \<and> citations (generate_answer Yes (Some ''6 minutes. '') ''How long?''
        ex_short_evidence ''SUMMARY_MODE'') = []"
proof -
  have failed: "generate_answer Yes None ''How long?'' ex_evidence ''FACT_MODE''
      = generate_and_cite None (evidence_items ex_evidence) None"
    using how_long_not_sensitive
    by (simp add: generate_answer_def entailment_state_def ex_evidence_def)
  have cits: "build_citations (evidence_items ex_evidence)
      = [\<lparr>cit_text = ''took 6 minutes'', cit_source = ''data/notes.md'',
           cit_chunk_id = ''notes.md:0'', cit_timestamp = None\<rparr>, ex_mail_citation]"
    by (simp add: ex_evidence_def ex_cite1 ex_cite2)
  have short: "generate_answer Yes (Some ''6 minutes. '') ''How long?'' ex_short_evidence
      ''SUMMARY_MODE'' = generate_and_cite (Some ''6 minutes. '')
         (evidence_items ex_short_evidence) (Some Conf_medium)"
    using how_long_not_sensitive
    by (simp add: generate_answer_def ex_short_evidence_def)
  show ?thesis
    using refusal_text_not_sensitive refusal_text_is_refusal
    by (simp add: failed short generate_and_cite_def generated_text_None six_minutes_answer
        cits ex_cite_short)
qed

theorem refusal_citation_coupling_witness:
  "returns_before_generation No ''How long?'' ex_evidence ''FACT_MODE''
   \<and> confidence (generate_answer No None ''How long?'' ex_evidence ''FACT_MODE'') = Conf_none
   \<and> citations (generate_answer No None ''How long?'' ex_evidence ''FACT_MODE'') = []"
proof -
  have early: "returns_before_generation No ''How long?'' ex_evidence ''FACT_MODE''"
    by (simp add: returns_before_generation_def entailment_state_def ex_evidence_def)
  have none: "confidence (generate_answer No None ''How long?'' ex_evidence ''FACT_MODE'') = Conf_none"
    using how_long_not_sensitive
    by (simp add: generate_answer_def entailment_state_def ex_evidence_def refusal_def)
  from refusal_citation_coupling [of No None "''How long?''" ex_evidence "''FACT_MODE''"] early none
  show ?thesis by simp
qed

lemma generated_path:
  assumes "\<not> contains_sensitive_info question []"
    and "has_evidence evidence" and "evidence_items evidence \<noteq> []"
    and "answer_mode = ''SUMMARY_MODE''
         \<or> entailment_state llm_state question (map ev_quote (evidence_items evidence)) = Yes"
  shows "\<exists>boost. generate_answer llm_state llm_answer question evidence answer_mode
           = generate_and_cite llm_answer (evidence_items evidence) boost"
proof -
  have "set (map ev_chunk_id (evidence_items evidence)) \<noteq> {}" using assms(3) by simp
  then have "card (set (map ev_chunk_id (evidence_items evidence))) \<noteq> 0"
    by (simp del: set_map)
  with assms show ?thesis
    by (cases "answer_mode = ''SUMMARY_MODE''")
       (auto simp: generate_answer_def Let_def simp del: set_map)
qed

lemma contains_sensitive_info_iff:
  "contains_sensitive_info text source_file =
     (\<not> contains ''identity.md'' source_file \<and> matches_sensitive text)"
proof (cases "text = []")
  case True
  then show ?thesis
    using no_pattern_in_empty no_keyword_in_empty
    by (simp add: contains_sensitive_info_def matches_sensitive_def list_ex_iff any_keyword_in_iff)
next
  case False
  then show ?thesis
    by (auto simp add: contains_sensitive_info_def matches_sensitive_def list_ex_iff
        any_keyword_in_iff)
qed

lemma cite_form:
  "cite ev = (if citation_kept ev then Some (citation_form ev) else None)"
  by (simp add: cite_def Let_def citation_kept_def citation_form_def plain_citation_def
      redacted_citation_def contains_sensitive_info_iff)

lemma build_citations_form:
  "build_citations evs = map citation_form (filter citation_kept evs)"
  by (induction evs) (simp_all add: cite_form)

text \<open>
  When the gate generates an answer and does not block it, the citation list is, in the
  order of the evidence, the citation of every evidence item that the assembly keeps.
\<close>

lemma generated_citations_form:
  assumes "\<not> contains_sensitive_info question []"
    and "has_evidence evidence" and "evidence_items evidence \<noteq> []"
    and "answer_mode = ''SUMMARY_MODE''
         \<or> entailment_state llm_state question (map ev_quote (evidence_items evidence)) = Yes"
    and "is_from_identity (evidence_items evidence)
         \<or> \<not> contains_sensitive_info (generated_text llm_answer) []"
  shows "citations (generate_answer llm_state llm_answer question evidence answer_mode)
      = map citation_form (filter citation_kept (evidence_items evidence))
    \<and> (\<forall>c \<in> set (citations (generate_answer llm_state llm_answer question evidence answer_mode)).
          \<not> contains ''identity.md'' (cit_source c) \<longrightarrow> \<not> matches_sensitive (cit_text c))"
proof -
  from generated_path [OF assms(1-4)] obtain boost where
    "generate_answer llm_state llm_answer question evidence answer_mode
       = generate_and_cite llm_answer (evidence_items evidence) boost" by blast
  with assms(5) have cits:
    "citations (generate_answer llm_state llm_answer question evidence answer_mode)
       = map citation_form (filter citation_kept (evidence_items evidence))"
    by (simp add: generate_and_cite_confidence build_citations_form)
  have "\<not> matches_sensitive (cit_text c)"
    if "c \<in> set (map citation_form (filter citation_kept (evidence_items evidence)))"
      and "\<not> contains ''identity.md'' (cit_source c)" for c
  proof -
    from that(1) obtain ev where ev: "citation_kept ev" "c = citation_form ev" by auto
    show ?thesis
    proof (cases "contains ''identity.md'' (ev_file ev)")
      case True
      with ev(2) that(2) show ?thesis
        by (simp add: citation_form_def plain_citation_def)
    next
      case False
      with ev show ?thesis
        by (simp add: citation_form_def citation_kept_def redacted_citation_def)
    qed
  qed
  with cits show ?thesis by simp
qed

text \<open>
  Claim C9 exempts only the citations of the profile record, which the raw memory
  recognises by the file name \<open>identity.md\<close> itself. The gate exempts every file whose path
  contains \<open>identity.md\<close>. For an evidence item of the file \<open>data/team_identity.md\<close>, which
  is not the profile, the generated answer cites the quote with its email address and its
  password text, neither redacted nor dropped; the same item from \<open>data/team.md\<close> is
  redacted and then dropped.
\<close>

theorem identity_substring_exempts:
  "citations (generate_answer Yes (Some ''Mail them.'') ''Who to mail?''
       \<lparr>evidence_items = [ex_team_ev ''data/team_identity.md''], has_evidence = True,
        raw_extraction = None\<rparr> ''FACT_MODE'')
     = [\<lparr>cit_text = ''mail a@b.io password x'', cit_source = ''data/team_identity.md'',
          cit_chunk_id = ''team:0'', cit_timestamp = None\<rparr>]
   \<and> redact_emails ''mail a@b.io password x'' = ''mail [redacted] password x''
   \<and> cite (ex_team_ev ''data/team.md'') = None"
proof (intro conjI)
  have valid: "is_valid (strip ''mail a@b.io password x'')"
    by (simp add: is_valid_def text_evals)
  have inside: "contains ''identity.md'' ''data/team_identity.md''"
    by simp
  have kept: "cite (ex_team_ev ''data/team_identity.md'')
      = Some \<lparr>cit_text = ''mail a@b.io password x'', cit_source = ''data/team_identity.md'',
               cit_chunk_id = ''team:0'', cit_timestamp = None\<rparr>"
    using valid inside
    by (simp add: cite_def ex_team_ev_def contains_sensitive_info_def)
       (simp add: text_evals)
  have from_identity: "is_from_identity [ex_team_ev ''data/team_identity.md'']"
    using inside by (simp add: is_from_identity_def ex_team_ev_def)
  show "citations (generate_answer Yes (Some ''Mail them.'') ''Who to mail?''
       \<lparr>evidence_items = [ex_team_ev ''data/team_identity.md''], has_evidence = True,
        raw_extraction = None\<rparr> ''FACT_MODE'')
     = [\<lparr>cit_text = ''mail a@b.io password x'', cit_source = ''data/team_identity.md'',
          cit_chunk_id = ''team:0'', cit_timestamp = None\<rparr>]"
    using who_to_mail_not_sensitive from_identity
    by (simp add: generate_answer_def generate_and_cite_def entailment_state_def mail_answer kept)
  show redacted: "redact_emails ''mail a@b.io password x'' = ''mail [redacted] password x''"
    by (simp add: redact_emails_def text_evals re_evals)
  have "contains_sensitive_info ''mail [redacted] password x'' ''data/team.md''"
    by (simp add: sensitive_evals)
  then show "cite (ex_team_ev ''data/team.md'') = None"
    using valid redacted
    by (simp add: cite_def ex_team_ev_def)
       (simp add: text_evals)
qed

theorem identity_substring_exempts_witness:
  "has_evidence \<lparr>evidence_items = [ex_team_ev ''data/team_identity.md''], has_evidence = True,
        raw_extraction = None\<rparr>
   \<and> length (citations (generate_answer Yes (Some ''Mail them.'') ''Who to mail?''
       \<lparr>evidence_items = [ex_team_ev ''data/team_identity.md''], has_evidence = True,
        raw_extraction = None\<rparr> ''FACT_MODE'')) = 1"
  using identity_substring_exempts by simp

section \<open>The verbatim invariant along the pipeline\<close>

subsection \<open>Stripping does not change the normal form\<close>






subsection \<open>A text without an at sign is not redacted\<close>







subsection \<open>Evidence items are verbatim\<close>







subsection \<open>Citations come from evidence items\<close>



subsection \<open>The whole request\<close>










end
